theory Spec2Isabelle
  imports
    Complex_Main
    "HOL-Library.Multiset"
    "HOL-Library.Char_ord"
    "HOL-Library.List_Lexorder"
begin

unbundle bit_operations_syntax

section \<open>Text\<close>

text \<open>
  Python strings are modelled as \<^typ>\<open>string\<close>. The model covers ASCII text, where
  \<^verbatim>\<open>s.encode('utf-8')\<close> is the string itself, one byte per character, and where
  Python's comparison of strings (by code point) is the lexicographic order on lists
  of characters.
\<close>

definition isdigit :: "char \<Rightarrow> bool" where
  \<comment> \<open>\<^verbatim>\<open>c.isdigit()\<close> on one character\<close>
  "isdigit c = (c \<in> set ''0123456789'')"


fun split :: "char \<Rightarrow> string \<Rightarrow> string list" where
  \<comment> \<open>\<^verbatim>\<open>s.split(sep)\<close> for a separator of one character\<close>
  "split sep [] = [[]]"
| "split sep (c # cs) =
     (if c = sep then [] # split sep cs
      else (case split sep cs of
              [] \<Rightarrow> [[c]]
            | p # ps \<Rightarrow> (c # p) # ps))"

fun join :: "string \<Rightarrow> string list \<Rightarrow> string" where
  \<comment> \<open>\<^verbatim>\<open>sep.join(parts)\<close>\<close>
  "join sep [] = []"
| "join sep [p] = p"
| "join sep (p # q # ps) = p @ sep @ join sep (q # ps)"

definition isspace :: "char \<Rightarrow> bool" where
  \<comment> \<open>the ASCII characters for which \<^verbatim>\<open>c.isspace()\<close> holds\<close>
  "isspace c = (of_char c \<in> {9, 10, 11, 12, 13, 28, 29, 30, 31, 32 :: nat})"

definition strip :: "string \<Rightarrow> string" where
  \<comment> \<open>\<^verbatim>\<open>s.strip()\<close>\<close>
  "strip s = rev (dropWhile isspace (rev (dropWhile isspace s)))"

section \<open>SHA-256 (hashlib.sha256)\<close>

text \<open>
  The digest of FIPS 180-4 on a sequence of bytes. A 32-bit word is an \<^typ>\<open>int\<close>
  in \<open>0 ..< 2 ^ 32\<close>; every addition is reduced modulo \<open>2 ^ 32\<close>.
\<close>

definition add32 :: "int \<Rightarrow> int \<Rightarrow> int" where
  "add32 x y = (x + y) mod 4294967296"

definition rotr :: "nat \<Rightarrow> int \<Rightarrow> int" where
  "rotr n x = x div 2 ^ n + (x mod 2 ^ n) * 2 ^ (32 - n)"

definition shr :: "nat \<Rightarrow> int \<Rightarrow> int" where
  "shr n x = x div 2 ^ n"

definition K256 :: "int list" where
  \<comment> \<open>the round constants: the first 32 bits of the fractional parts of the cube roots
      of the first 64 primes\<close>
  "K256 =
     [1116352408, 1899447441, 3049323471, 3921009573, 961987163, 1508970993,
      2453635748, 2870763221, 3624381080, 310598401, 607225278, 1426881987,
      1925078388, 2162078206, 2614888103, 3248222580, 3835390401, 4022224774,
      264347078, 604807628, 770255983, 1249150122, 1555081692, 1996064986,
      2554220882, 2821834349, 2952996808, 3210313671, 3336571891, 3584528711,
      113926993, 338241895, 666307205, 773529912, 1294757372, 1396182291,
      1695183700, 1986661051, 2177026350, 2456956037, 2730485921, 2820302411,
      3259730800, 3345764771, 3516065817, 3600352804, 4094571909, 275423344,
      430227734, 506948616, 659060556, 883997877, 958139571, 1322822218,
      1537002063, 1747873779, 1955562222, 2024104815, 2227730452, 2361852424,
      2428436474, 2756734187, 3204031479, 3329325298]"

definition H256 :: "int list" where
  \<comment> \<open>the initial hash value: the first 32 bits of the fractional parts of the square
      roots of the first 8 primes\<close>
  "H256 =
     [1779033703, 3144134277, 1013904242, 2773480762,
      1359893119, 2600822924, 528734635, 1541459225]"

definition ssig0 :: "int \<Rightarrow> int" where
  "ssig0 x = rotr 7 x XOR rotr 18 x XOR shr 3 x"

definition ssig1 :: "int \<Rightarrow> int" where
  "ssig1 x = rotr 17 x XOR rotr 19 x XOR shr 10 x"

definition bsig0 :: "int \<Rightarrow> int" where
  "bsig0 x = rotr 2 x XOR rotr 13 x XOR rotr 22 x"

definition bsig1 :: "int \<Rightarrow> int" where
  "bsig1 x = rotr 6 x XOR rotr 11 x XOR rotr 25 x"

definition ch :: "int \<Rightarrow> int \<Rightarrow> int \<Rightarrow> int" where
  "ch x y z = (x AND y) XOR ((4294967295 - x) AND z)"

definition maj :: "int \<Rightarrow> int \<Rightarrow> int \<Rightarrow> int" where
  "maj x y z = (x AND y) XOR (x AND z) XOR (y AND z)"

definition sched_word :: "int list \<Rightarrow> int" where
  \<comment> \<open>the next word of the message schedule, from the last sixteen, newest first\<close>
  "sched_word ws = add32 (add32 (add32 (ssig1 (ws ! 1)) (ws ! 6)) (ssig0 (ws ! 14))) (ws ! 15)"

fun schedule :: "nat \<Rightarrow> int list \<Rightarrow> int list" where
  "schedule 0 ws = []"
| "schedule (Suc n) ws = sched_word ws # schedule n (sched_word ws # butlast ws)"

definition round_out :: "int \<Rightarrow> int \<Rightarrow> int list \<Rightarrow> int list" where
  "round_out t1 t2 st =
     [add32 t1 t2, st ! 0, st ! 1, st ! 2, add32 (st ! 3) t1, st ! 4, st ! 5, st ! 6]"

definition round_step :: "int \<Rightarrow> int \<Rightarrow> int list \<Rightarrow> int list" where
  "round_step k w st =
     round_out
       (add32 (add32 (add32 (add32 (st ! 7) (bsig1 (st ! 4))) (ch (st ! 4) (st ! 5) (st ! 6))) k) w)
       (add32 (bsig0 (st ! 0)) (maj (st ! 0) (st ! 1) (st ! 2)))
       st"

fun rounds :: "int list \<Rightarrow> int list \<Rightarrow> int list \<Rightarrow> int list" where
  "rounds (k # ks) (w # ws) st = rounds ks ws (round_step k w st)"
| "rounds _ _ st = st"

fun be32 :: "int list \<Rightarrow> int" where
  "be32 [a, b, c, d] = ((a * 256 + b) * 256 + c) * 256 + d"
| "be32 _ = 0"

fun chunks :: "nat \<Rightarrow> 'a list \<Rightarrow> 'a list list" where
  "chunks k [] = []"
| "chunks k (x # xs) = take k (x # xs) # chunks k (drop (k - 1) xs)"

definition compress :: "int list \<Rightarrow> int list \<Rightarrow> int list" where
  "compress hs block =
     map2 add32 hs
       (rounds K256
          (map be32 (chunks 4 block) @ schedule 48 (rev (map be32 (chunks 4 block)))) hs)"

definition be64 :: "int \<Rightarrow> int list" where
  "be64 n = map (\<lambda>i. (n div 256 ^ (7 - i)) mod 256) [0..<8]"

definition pad :: "int list \<Rightarrow> int list" where
  "pad m = m @ [128] @ replicate ((119 - length m mod 64) mod 64) 0 @ be64 (8 * int (length m))"

definition sha256_words :: "int list \<Rightarrow> int list" where
  "sha256_words m = foldl compress H256 (chunks 64 (pad m))"

definition hexchar :: "nat \<Rightarrow> char" where
  "hexchar n = (''0123456789abcdef'' ! n)"

definition hex32 :: "int \<Rightarrow> string" where
  "hex32 w = map (\<lambda>i. hexchar (nat ((w div 16 ^ (7 - i)) mod 16))) [0..<8]"

definition sha256_hexdigest :: "string \<Rightarrow> string" where
  \<comment> \<open>\<^verbatim>\<open>hashlib.sha256(s.encode('utf-8')).hexdigest()\<close>\<close>
  "sha256_hexdigest s = concat (map hex32 (sha256_words (map of_char s)))"

section \<open>detect_decimal_separator\<close>










section \<open>Numbers as text\<close>

function dec :: "int \<Rightarrow> string" where
  \<comment> \<open>the decimal digits of a natural number\<close>
  "dec n =
     (if n < 10 then [''0123456789'' ! nat n]
      else dec (n div 10) @ [''0123456789'' ! nat (n mod 10)])"
  by pat_completeness auto
termination
  by (relation "measure nat") auto

declare dec.simps [simp del]

definition str_int :: "int \<Rightarrow> string" where
  \<comment> \<open>\<^verbatim>\<open>str(i)\<close> of an integer\<close>
  "str_int i = (if i < 0 then CHR ''-'' # dec (- i) else dec i)"

definition zero_pad :: "nat \<Rightarrow> int \<Rightarrow> string" where
  "zero_pad w n = replicate (w - length (dec n)) CHR ''0'' @ dec n"

section \<open>float64: rounding and repr\<close>

text \<open>
  A binary64 value is its exact rational value, or one of the special values. The
  operations are those of IEEE 754 in the default rounding mode (to nearest, ties to
  even), defined on the exact values.
\<close>

datatype float64 = Finite rat | NegZero | PosInf | NegInf | NaN

function ilog :: "int \<Rightarrow> int \<Rightarrow> int" where
  \<comment> \<open>the floor of the logarithm of \<open>n\<close> to the base \<open>b\<close>, for \<open>n \<ge> 1\<close>\<close>
  "ilog b n = (if b < 2 \<or> n < b then 0 else 1 + ilog b (n div b))"
  by pat_completeness auto
termination
  by (relation "measure (\<lambda>(b, n). nat n)") (auto intro: int_div_less_self)

declare ilog.simps [simp del]

definition scale :: "int \<Rightarrow> int \<Rightarrow> rat" where
  \<comment> \<open>\<open>b\<close> to the power \<open>e\<close>, \<open>e\<close> of either sign\<close>
  "scale b e = (if 0 \<le> e then of_int (b ^ nat e) else 1 / of_int (b ^ nat (- e)))"

definition floor_log :: "int \<Rightarrow> rat \<Rightarrow> int" where
  \<comment> \<open>the floor of the logarithm of a positive rational to the base \<open>b\<close>\<close>
  "floor_log b q =
     (let e = ilog b (fst (quotient_of q)) - ilog b (snd (quotient_of q))
      in if scale b e \<le> q then e else e - 1)"

definition round_half_even :: "rat \<Rightarrow> int" where
  "round_half_even q =
     (let f = \<lfloor>q\<rfloor>; r = q - of_int f
      in if r < 1 / 2 then f else if 1 / 2 < r then f + 1 else if even f then f else f + 1)"

definition float_of_rat :: "rat \<Rightarrow> float64" where
  \<comment> \<open>the binary64 value nearest to a rational, ties to even: 53 bits of mantissa,
      exponents from -1074, infinity from \<open>2 ^ 1024\<close> on\<close>
  "float_of_rat q =
     (if q = 0 then Finite 0
      else let e = floor_log 2 \<bar>q\<bar>;
               u = max (e - 52) (- 1074);
               m = round_half_even (\<bar>q\<bar> / scale 2 u)
           in if 1024 \<le> e \<or> (e = 1023 \<and> m = 9007199254740992)
                then (if 0 < q then PosInf else NegInf)
              else if m = 0 then (if 0 < q then Finite 0 else NegZero)
              else Finite ((if 0 < q then of_int m else - of_int m) * scale 2 u))"

fun fmul :: "float64 \<Rightarrow> rat \<Rightarrow> float64" where
  \<comment> \<open>the product with a positive constant\<close>
  "fmul (Finite q) c = float_of_rat (q * c)"
| "fmul x c = x"

fun fdiv :: "float64 \<Rightarrow> rat \<Rightarrow> float64" where
  \<comment> \<open>the quotient by a positive constant\<close>
  "fdiv (Finite q) c = float_of_rat (q / c)"
| "fdiv x c = x"

fun rint :: "float64 \<Rightarrow> float64" where
  \<comment> \<open>the nearest integer, ties to even, keeping the sign of a zero result\<close>
  "rint (Finite q) =
     (if round_half_even q = 0 \<and> q < 0 then NegZero else Finite (of_int (round_half_even q)))"
| "rint x = x"

definition np_round :: "nat \<Rightarrow> float64 \<Rightarrow> float64" where
  \<comment> \<open>numpy's \<^verbatim>\<open>round(x, decimals)\<close> for \<^verbatim>\<open>decimals > 0\<close>: multiply by the power of ten,
      \<^verbatim>\<open>rint\<close>, divide by the power of ten\<close>
  "np_round decimals x = fdiv (rint (fmul x (10 ^ decimals))) (10 ^ decimals)"

definition roundtrips :: "rat \<Rightarrow> int \<Rightarrow> int \<Rightarrow> bool" where
  \<comment> \<open>the decimal \<open>c * 10 ^ x\<close> reads back as the binary64 value \<open>q\<close>\<close>
  "roundtrips q c x = (float_of_rat (of_int c * scale 10 x) = Finite q)"

fun shortest :: "nat list \<Rightarrow> rat \<Rightarrow> int \<times> int" where
  \<comment> \<open>the decimal nearest to \<open>q\<close> with the first number of digits, of those listed, at
      which a decimal reads back as \<open>q\<close>\<close>
  "shortest [] q = (0, 0)"
| "shortest (k # ks) q =
     (let x = floor_log 10 q - int k + 1;
          c = round_half_even (q / scale 10 x);
          c' = (if of_int c * scale 10 x \<le> q then c + 1 else c - 1)
      in if ks = [] \<or> roundtrips q c x then (c, x)
         else if roundtrips q c' x then (c', x)
         else shortest ks q)"

function strip_zeros :: "int \<times> int \<Rightarrow> int \<times> int" where
  "strip_zeros (c, x) =
     (if c \<noteq> 0 \<and> c mod 10 = 0 then strip_zeros (c div 10, x + 1) else (c, x))"
  by pat_completeness auto
termination
  by (relation "measure (\<lambda>(c, x). nat \<bar>c\<bar>)") auto

declare strip_zeros.simps [simp del]

definition exponent_digits :: "int \<Rightarrow> string" where
  "exponent_digits e =
     (if e < 0 then CHR ''-'' else CHR ''+'')
       # (if \<bar>e\<bar> < 10 then CHR ''0'' # dec \<bar>e\<bar> else dec \<bar>e\<bar>)"

definition format_digits :: "string \<Rightarrow> int \<Rightarrow> string" where
  \<comment> \<open>the digits of a number and the place of its decimal point, as \<^verbatim>\<open>repr\<close> lays
      them out: positional from \<open>1e-4\<close> up to \<open>1e16\<close>, with an exponent otherwise\<close>
  "format_digits ds decpt =
     (if - 4 < decpt \<and> decpt \<le> 16 then
        (if decpt \<le> 0 then ''0.'' @ replicate (nat (- decpt)) CHR ''0'' @ ds
         else if int (length ds) \<le> decpt
           then ds @ replicate (nat decpt - length ds) CHR ''0'' @ ''.0''
         else take (nat decpt) ds @ ''.'' @ drop (nat decpt) ds)
      else
        take 1 ds @ (if 1 < length ds then ''.'' @ drop 1 ds else [])
          @ ''e'' @ exponent_digits (decpt - 1))"

definition repr_mag :: "rat \<Rightarrow> string" where
  \<comment> \<open>\<^verbatim>\<open>repr\<close> of a positive binary64 value: the shortest decimal that reads back\<close>
  "repr_mag q =
     (case strip_zeros (shortest [1..<18] q) of
        (c, x) \<Rightarrow> format_digits (dec c) (int (length (dec c)) + x))"

fun str_float :: "float64 \<Rightarrow> string" where
  \<comment> \<open>\<^verbatim>\<open>str(x)\<close> of a float\<close>
  "str_float (Finite q) =
     (if q = 0 then ''0.0'' else if q < 0 then CHR ''-'' # repr_mag (- q) else repr_mag q)"
| "str_float NegZero = ''-0.0''"
| "str_float PosInf = ''inf''"
| "str_float NegInf = ''-inf''"
| "str_float NaN = ''nan''"


section \<open>Data frames\<close>

text \<open>
  A frame is the list of its columns in order, each under its label. A column has one of
  the dtypes the code tells apart: \<^verbatim>\<open>object\<close> (text cells, \<open>None\<close> for a missing
  one), \<^verbatim>\<open>int64\<close>, \<^verbatim>\<open>float64\<close> and \<^verbatim>\<open>datetime64\<close> (\<open>None\<close> for
  \<^verbatim>\<open>NaT\<close>). The model covers frames whose labels are distinct and whose columns have
  one length, and takes a frame without columns to have no rows.
\<close>

record datetime =
  year :: int
  month :: int
  day :: int
  hour :: int
  minute :: int
  second :: int

datatype column =
    ObjectCol "string option list"
  | Int64Col "int list"
  | Float64Col "float64 list"
  | DatetimeCol "datetime option list"

type_synonym dataframe = "(string \<times> column) list"

fun col_length :: "column \<Rightarrow> nat" where
  "col_length (ObjectCol xs) = length xs"
| "col_length (Int64Col xs) = length xs"
| "col_length (Float64Col xs) = length xs"
| "col_length (DatetimeCol xs) = length xs"


fun is_object :: "column \<Rightarrow> bool" where
  "is_object (ObjectCol xs) = True"
| "is_object c = False"

fun is_datetime :: "column \<Rightarrow> bool" where
  "is_datetime (DatetimeCol xs) = True"
| "is_datetime c = False"

fun object_values :: "column \<Rightarrow> string option list" where
  "object_values (ObjectCol xs) = xs"
| "object_values c = []"

definition getitem :: "dataframe \<Rightarrow> string \<Rightarrow> column" where
  \<comment> \<open>\<^verbatim>\<open>df[col]\<close>, for a label of the frame\<close>
  "getitem df col = the (map_of df col)"

definition setitem :: "dataframe \<Rightarrow> string \<Rightarrow> column \<Rightarrow> dataframe" where
  \<comment> \<open>\<^verbatim>\<open>df[col] = values\<close>, for a label of the frame: the column keeps its place\<close>
  "setitem df col values = map (\<lambda>(n, c). if n = col then (n, values) else (n, c)) df"

section \<open>pandas.to_datetime\<close>

text \<open>
  What \<^verbatim>\<open>pandas.to_datetime\<close> reads as a date is the library's: \<open>strptime fmt s\<close> is
  the reading of one text under one explicit format (\<open>None\<close> when it does not match), and
  \<open>infer_datetime col\<close> is the reading of a whole column without a format and with
  \<^verbatim>\<open>errors='coerce'\<close> (\<open>None\<close> for a cell that does not parse). Both are parameters of
  the model.
\<close>

record pandas =
  strptime :: "string \<Rightarrow> string \<Rightarrow> datetime option"
  infer_datetime :: "string option list \<Rightarrow> datetime option list"

definition nat_strings :: "string list" where
  "nat_strings = [''NaT'', ''nat'', ''NAT'', ''nan'', ''NaN'', ''NAN'']"

definition is_null :: "string option \<Rightarrow> bool" where
  \<comment> \<open>the cells \<^verbatim>\<open>to_datetime\<close> reads as missing, whatever the format\<close>
  "is_null c = (case c of None \<Rightarrow> True | Some s \<Rightarrow> s = [] \<or> s \<in> set nat_strings)"

definition parses :: "pandas \<Rightarrow> string \<Rightarrow> string option \<Rightarrow> bool" where
  "parses L fmt c = (is_null c \<or> strptime L fmt (the c) \<noteq> None)"

definition to_datetime_format ::
    "pandas \<Rightarrow> string \<Rightarrow> string option list \<Rightarrow> datetime option list option" where
  \<comment> \<open>\<^verbatim>\<open>pd.to_datetime(col, format=fmt, errors='raise')\<close>: \<open>None\<close> when it raises, which it
      does as soon as one cell that is not missing does not match the format\<close>
  "to_datetime_format L fmt col =
     (if list_all (parses L fmt) col
      then Some (map (\<lambda>c. if is_null c then None else strptime L fmt (the c)) col)
      else None)"

definition notnull_mean_ge :: "datetime option list \<Rightarrow> bool" where
  \<comment> \<open>\<^verbatim>\<open>parsed_col.notnull().mean() >= 0.8\<close>; the mean of no value is NaN, and the
      comparison of the two floats is exact for every column shorter than \<open>2 ^ 50\<close>\<close>
  "notnull_mean_ge parsed =
     (parsed \<noteq> [] \<and> 4 * length parsed \<le> 5 * length (filter (\<lambda>d. d \<noteq> None) parsed))"

section \<open>standardize_datetime_columns\<close>

definition datetime_formats :: "string list" where
  "datetime_formats =
     [''%Y-%m-%d %H:%M:%S'',
      ''%d-%m-%Y %H:%M:%S'',
      ''%Y-%m-%d %H:%M'',
      ''%d-%m-%Y %H:%M'',
      ''%Y-%m-%d'',
      ''%d-%m-%Y'']"

fun try_formats ::
    "pandas \<Rightarrow> string list \<Rightarrow> string option list
       \<Rightarrow> string list \<times> datetime option list option" where
  \<comment> \<open>\<^verbatim>\<open>for fmt in datetime_formats\<close>, out of the loop at the first format that does not
      raise. The result is the list of the formats \<^verbatim>\<open>to_datetime\<close> was called with, and
      \<^verbatim>\<open>parsed_col\<close>.\<close>
  "try_formats L [] col = ([], None)"
| "try_formats L (fmt # fmts) col =
     (case to_datetime_format L fmt col of
        Some parsed_col \<Rightarrow> ([fmt], Some parsed_col)
      | None \<Rightarrow> (case try_formats L fmts col of (tried, r) \<Rightarrow> (fmt # tried, r)))"

definition parse_object_column :: "pandas \<Rightarrow> string option list \<Rightarrow> datetime option list option" where
  \<comment> \<open>the body of \<^verbatim>\<open>for col in object_cols\<close>: the column as datetimes, when it is taken
      for one\<close>
  "parse_object_column L col =
     (case snd (try_formats L datetime_formats col) of
        Some parsed_col \<Rightarrow> Some parsed_col
      | None \<Rightarrow>
          (let parsed_col = infer_datetime L col
           in if notnull_mean_ge parsed_col then Some parsed_col else None))"

definition object_step ::
    "pandas \<Rightarrow> string \<Rightarrow> dataframe \<times> string list \<Rightarrow> dataframe \<times> string list" where
  \<comment> \<open>one turn of \<^verbatim>\<open>for col in object_cols\<close> on the frame and
      \<^verbatim>\<open>potential_datetime_cols\<close>\<close>
  "object_step L col st =
     (case st of (df, potential_datetime_cols) \<Rightarrow>
        (case parse_object_column L (object_values (getitem df col)) of
           Some parsed_col \<Rightarrow>
             (setitem df col (DatetimeCol parsed_col), potential_datetime_cols @ [col])
         | None \<Rightarrow> (df, potential_datetime_cols)))"

definition directive :: "char \<Rightarrow> datetime \<Rightarrow> string" where
  "directive d t =
     (if d = CHR ''Y'' then zero_pad 4 (year t)
      else if d = CHR ''m'' then zero_pad 2 (month t)
      else if d = CHR ''d'' then zero_pad 2 (day t)
      else if d = CHR ''H'' then zero_pad 2 (hour t)
      else if d = CHR ''M'' then zero_pad 2 (minute t)
      else if d = CHR ''S'' then zero_pad 2 (second t)
      else [CHR ''%'', d])"

fun strftime :: "string \<Rightarrow> datetime \<Rightarrow> string" where
  "strftime (f # d # fmt) t =
     (if f = CHR ''%'' then directive d t @ strftime fmt t else f # strftime (d # fmt) t)"
| "strftime fmt t = fmt"

fun dt_strftime :: "string \<Rightarrow> column \<Rightarrow> column" where
  \<comment> \<open>\<^verbatim>\<open>df[col].dt.strftime(date_format)\<close>: an object column, \<^verbatim>\<open>NaT\<close> left missing.
      Only datetime columns reach it.\<close>
  "dt_strftime date_format (DatetimeCol ds) = ObjectCol (map (map_option (strftime date_format)) ds)"
| "dt_strftime date_format c = c"

definition standardize_datetime_columns :: "pandas \<Rightarrow> dataframe \<Rightarrow> bool \<Rightarrow> dataframe" where
  \<comment> \<open>The function assigns to the columns of the frame it is given and returns that
      frame: the result is also the caller's frame after the call. The order in which
      \<^verbatim>\<open>list(set(datetime_cols))\<close> lists the labels is irrelevant: each turn of the last loop
      assigns to its own column.\<close>
  "standardize_datetime_columns L df date_only =
     (let datetime_cols = map fst (filter (\<lambda>(n, c). is_datetime c) df);
          object_cols = map fst (filter (\<lambda>(n, c). is_object c) df);
          (df, potential_datetime_cols) = fold (object_step L) object_cols (df, []);
          datetime_cols = remdups (datetime_cols @ potential_datetime_cols);
          date_format = (if date_only then ''%Y-%m-%d'' else ''%Y-%m-%d %H:%M:%S'')
      in fold (\<lambda>col df. setitem df col (dt_strftime date_format (getitem df col))) datetime_cols df)"

section \<open>The fingerprints\<close>

definition reindex_sorted :: "dataframe \<Rightarrow> dataframe" where
  \<comment> \<open>\<^verbatim>\<open>df.reindex(sorted(df.columns), axis=1)\<close>\<close>
  "reindex_sorted df = map (\<lambda>n. (n, getitem df n)) (sort (map fst df))"

fun str_strip :: "column \<Rightarrow> column" where
  \<comment> \<open>\<^verbatim>\<open>x.str.strip()\<close> on the object columns\<close>
  "str_strip (ObjectCol xs) = ObjectCol (map (map_option strip) xs)"
| "str_strip c = c"

fun round_col :: "nat \<Rightarrow> column \<Rightarrow> column" where
  \<comment> \<open>\<^verbatim>\<open>round(decimals)\<close> on the numeric columns: integers stay as they are\<close>
  "round_col decimals (Float64Col xs) = Float64Col (map (np_round decimals) xs)"
| "round_col decimals c = c"

fun fillna_astype_str :: "column \<Rightarrow> string list" where
  \<comment> \<open>\<^verbatim>\<open>fillna('').astype(str)\<close>\<close>
  "fillna_astype_str (ObjectCol xs) = map (\<lambda>x. case x of None \<Rightarrow> [] | Some s \<Rightarrow> s) xs"
| "fillna_astype_str (Int64Col xs) = map str_int xs"
| "fillna_astype_str (Float64Col xs) = map (\<lambda>x. if x = NaN then [] else str_float x) xs"
| "fillna_astype_str (DatetimeCol xs) =
     map (\<lambda>x. case x of None \<Rightarrow> [] | Some t \<Rightarrow> strftime ''%Y-%m-%d %H:%M:%S'' t) xs"

fun rows_of :: "'a list list \<Rightarrow> 'a list list" where
  \<comment> \<open>the rows of a frame given by its columns\<close>
  "rows_of [] = []"
| "rows_of [c] = map (\<lambda>x. [x]) c"
| "rows_of (c # cs) = map2 (#) c (rows_of cs)"

definition csv_field :: "string \<Rightarrow> string" where
  \<comment> \<open>a field as \<^verbatim>\<open>csv.writer\<close> writes it under \<^verbatim>\<open>QUOTE_MINIMAL\<close>: in quotes, with its
      quotes doubled, when it holds the delimiter, a quote or the line terminator\<close>
  "csv_field s =
     (if list_ex (\<lambda>c. c \<in> set [CHR '','', CHR 0x22, CHR 0x0A]) s
      then [CHR 0x22] @ concat (map (\<lambda>c. if c = CHR 0x22 then [c, c] else [c]) s) @ [CHR 0x22]
      else s)"

definition csv_row :: "string list \<Rightarrow> string" where
  \<comment> \<open>a record and its line terminator; a record of one empty field is written as two
      quotes\<close>
  "csv_row row =
     (if row = [[]] then [CHR 0x22, CHR 0x22] else join '','' (map csv_field row))
       @ [CHR 0x0A]"

definition to_csv :: "string list list \<Rightarrow> string" where
  \<comment> \<open>\<^verbatim>\<open>df.to_csv(index=False, header=False, lineterminator='\n')\<close> on columns of text\<close>
  "to_csv cols = concat (map csv_row (rows_of cols))"

definition generate_order_dependent_fingerprint :: "pandas \<Rightarrow> dataframe \<Rightarrow> string \<times> dataframe" where
  \<comment> \<open>the fingerprint, and the caller's frame after the call\<close>
  "generate_order_dependent_fingerprint L df0 =
     (let df0 = standardize_datetime_columns L df0 False;
          df = reindex_sorted df0;
          df = map (\<lambda>(n, c). (n, str_strip c)) df;
          df = map (\<lambda>(n, c). (n, round_col 6 c)) df;
          df = map (\<lambda>(n, c). (n, fillna_astype_str c)) df;
          data_string = to_csv (map snd df)
      in (sha256_hexdigest data_string, df0))"

definition generate_order_independent_fingerprint :: "pandas \<Rightarrow> dataframe \<Rightarrow> string \<times> dataframe" where
  \<comment> \<open>the fingerprint, and the caller's frame after the call\<close>
  "generate_order_independent_fingerprint L df0 =
     (let df0 = standardize_datetime_columns L df0 False;
          df = reindex_sorted df0;
          df = map (\<lambda>(n, c). (n, str_strip c)) df;
          df = map (\<lambda>(n, c). (n, round_col 6 c)) df;
          df = map (\<lambda>(n, c). (n, fillna_astype_str c)) df;
          row_strings = map (join '','') (rows_of (map snd df));
          row_hashes = map sha256_hexdigest row_strings;
          row_hashes = sort row_hashes;
          concatenated_hashes = concat row_hashes
      in (sha256_hexdigest concatenated_hashes, df0))"

section \<open>A reference reading of dates\<close>

text \<open>
  One instance of the library's part, to run the model on concrete frames: an explicit
  format matches a text whose fields are zero-padded to their full width and form a date
  of the calendar, and a column without a format is read cell by cell, each cell under
  the first of the six formats that matches it.
\<close>

definition read_digits :: "nat \<Rightarrow> string \<Rightarrow> (int \<times> string) option" where
  "read_digits w s =
     (if w \<le> length s \<and> list_all isdigit (take w s)
      then Some (foldl (\<lambda>a c. 10 * a + (of_char c - 48)) 0 (take w s), drop w s)
      else None)"

fun match_format :: "string \<Rightarrow> string \<Rightarrow> (char \<times> int) list option" where
  "match_format (f # d # fmt) s =
     (if f = CHR ''%'' then
        (case read_digits (if d = CHR ''Y'' then 4 else 2) s of
           None \<Rightarrow> None
         | Some (v, rest) \<Rightarrow> map_option ((#) (d, v)) (match_format fmt rest))
      else (case s of
              [] \<Rightarrow> None
            | c # rest \<Rightarrow> if c = f then match_format (d # fmt) rest else None))"
| "match_format fmt s = (if s = fmt then Some [] else None)"

definition days_in_month :: "int \<Rightarrow> int \<Rightarrow> int" where
  "days_in_month y m =
     (if m = 2 then (if y mod 4 = 0 \<and> (y mod 100 \<noteq> 0 \<or> y mod 400 = 0) then 29 else 28)
      else if m \<in> {4, 6, 9, 11} then 30 else 31)"

definition field_or :: "(char \<times> int) list \<Rightarrow> char \<Rightarrow> int \<Rightarrow> int" where
  "field_or fs d v = (case map_of fs d of None \<Rightarrow> v | Some w \<Rightarrow> w)"

definition strptime_strict :: "string \<Rightarrow> string \<Rightarrow> datetime option" where
  "strptime_strict fmt s =
     (case match_format fmt s of
        None \<Rightarrow> None
      | Some fs \<Rightarrow>
          (let t = \<lparr>year = field_or fs CHR ''Y'' 1900, month = field_or fs CHR ''m'' 1,
                    day = field_or fs CHR ''d'' 1, hour = field_or fs CHR ''H'' 0,
                    minute = field_or fs CHR ''M'' 0, second = field_or fs CHR ''S'' 0\<rparr>
           in if 1 \<le> month t \<and> month t \<le> 12 \<and> 1 \<le> day t \<and> day t \<le> days_in_month (year t) (month t)
                 \<and> hour t < 24 \<and> minute t < 60 \<and> second t < 60
              then Some t else None))"

definition infer_cell :: "string option \<Rightarrow> datetime option" where
  "infer_cell c =
     (if is_null c then None
      else (case filter (\<lambda>f. strptime_strict f (the c) \<noteq> None) datetime_formats of
              [] \<Rightarrow> None
            | f # _ \<Rightarrow> strptime_strict f (the c)))"

definition pandas_ref :: pandas where
  "pandas_ref = \<lparr>strptime = strptime_strict, infer_datetime = map infer_cell\<rparr>"

section \<open>Notions of the specification\<close>

definition canonical_frame :: "pandas \<Rightarrow> dataframe \<Rightarrow> (string \<times> string list) list" where
  \<comment> \<open>the canonical table: the frame both fingerprints serialize, after the steps the
      two functions share\<close>
  "canonical_frame L df =
     map (\<lambda>(n, c). (n, fillna_astype_str (round_col 6 (str_strip c))))
       (reindex_sorted (standardize_datetime_columns L df False))"

definition standardize_column :: "pandas \<Rightarrow> bool \<Rightarrow> column \<Rightarrow> column" where
  \<comment> \<open>what \<^verbatim>\<open>standardize_datetime_columns\<close> makes of one column\<close>
  "standardize_column L date_only c =
     (let date_format = (if date_only then ''%Y-%m-%d'' else ''%Y-%m-%d %H:%M:%S'') in
      case c of
        ObjectCol xs \<Rightarrow>
          (case parse_object_column L xs of
             Some parsed_col \<Rightarrow> dt_strftime date_format (DatetimeCol parsed_col)
           | None \<Rightarrow> c)
      | DatetimeCol ds \<Rightarrow> dt_strftime date_format c
      | _ \<Rightarrow> c)"

fun col_iloc :: "nat list \<Rightarrow> column \<Rightarrow> column" where
  "col_iloc idx (ObjectCol xs) = ObjectCol (map ((!) xs) idx)"
| "col_iloc idx (Int64Col xs) = Int64Col (map ((!) xs) idx)"
| "col_iloc idx (Float64Col xs) = Float64Col (map ((!) xs) idx)"
| "col_iloc idx (DatetimeCol xs) = DatetimeCol (map ((!) xs) idx)"

definition iloc :: "nat list \<Rightarrow> dataframe \<Rightarrow> dataframe" where
  \<comment> \<open>\<^verbatim>\<open>df.iloc[idx]\<close>: the rows at the positions \<open>idx\<close>, in that order\<close>
  "iloc idx df = map (\<lambda>(n, c). (n, col_iloc idx c)) df"


definition scenario_A :: dataframe where
  "scenario_A = [(''b'', Int64Col [1, 2]), (''a'', ObjectCol [Some ''x'', Some ''y''])]"


definition detect :: "pandas \<Rightarrow> column \<Rightarrow> column" where
  \<comment> \<open>what the loop over the object columns makes of one of them\<close>
  "detect L c =
     (case parse_object_column L (object_values c) of
        Some parsed_col \<Rightarrow> DatetimeCol parsed_col
      | None \<Rightarrow> c)"

fun taken_for_datetime :: "pandas \<Rightarrow> column \<Rightarrow> bool" where
  \<comment> \<open>the columns \<^verbatim>\<open>standardize_datetime_columns\<close> rewrites: the datetime columns, and
      the object columns it parses as datetimes\<close>
  "taken_for_datetime L (DatetimeCol ds) = True"
| "taken_for_datetime L (ObjectCol xs) = (parse_object_column L xs \<noteq> None)"
| "taken_for_datetime L c = False"

definition canonical_column :: "pandas \<Rightarrow> column \<Rightarrow> string list" where
  \<comment> \<open>the cells of one column in the canonical table\<close>
  "canonical_column L c = fillna_astype_str (round_col 6 (str_strip (standardize_column L False c)))"

definition comma_left :: dataframe where
  "comma_left = [(''p'', ObjectCol [Some ''a,b'']), (''q'', ObjectCol [Some ''c''])]"

definition comma_right :: dataframe where
  "comma_right = [(''p'', ObjectCol [Some ''a'']), (''q'', ObjectCol [Some ''b,c''])]"

definition padded_dates :: dataframe where
  "padded_dates =
     [(''d'', ObjectCol [Some ''2023-01-01'', Some ''2023-01-02'', Some ''2023-01-03'',
                         Some ''2023-01-04'', Some ''2023-01-06'', Some ''  2023-01-05  ''])]"

section \<open>The decimal separator\<close>








section \<open>The explicit formats\<close>

lemma to_datetime_format_None_iff:
  "to_datetime_format L fmt col = None \<longleftrightarrow> \<not> list_all (parses L fmt) col"
  by (simp add: to_datetime_format_def)

lemma try_formats_find:
  "try_formats L fmts col =
     (case find (\<lambda>fmt. list_all (parses L fmt) col) fmts of
        None \<Rightarrow> (fmts, None)
      | Some fmt \<Rightarrow>
          (takeWhile (\<lambda>f. \<not> list_all (parses L f) col) fmts @ [fmt],
           to_datetime_format L fmt col))"
proof (induction fmts)
  case Nil
  show ?case by simp
next
  case (Cons f fmts)
  show ?case
  proof (cases "list_all (parses L f) col")
    case True
    then show ?thesis by (simp add: to_datetime_format_def)
  next
    case False
    then show ?thesis
      using Cons.IH by (simp add: to_datetime_format_def split: option.splits)
  qed
qed



section \<open>The datetime columns, column by column\<close>

lemma getitem_eq: "distinct (map fst df) \<Longrightarrow> (n, c) \<in> set df \<Longrightarrow> getitem df n = c"
  by (simp add: getitem_def)

lemma map_fst_setitem [simp]: "map fst (setitem df col v) = map fst df"
  by (induction df) (auto simp: setitem_def)

lemma setitem_map:
  "distinct (map fst df) \<Longrightarrow>
     setitem df col (f (getitem df col)) = map (\<lambda>(n, c). (n, if n = col then f c else c)) df"
  unfolding setitem_def by (rule map_cong) (auto simp: getitem_eq)

lemma fold_setitem:
  "distinct (map fst df) \<Longrightarrow> distinct cols \<Longrightarrow>
     fold (\<lambda>col df. setitem df col (f (getitem df col))) cols df
       = map (\<lambda>(n, c). (n, if n \<in> set cols then f c else c)) df"
proof (induction cols arbitrary: df)
  case Nil
  show ?case by simp
next
  case (Cons col cols)
  let ?df' = "setitem df col (f (getitem df col))"
  have df': "?df' = map (\<lambda>(n, c). (n, if n = col then f c else c)) df"
    using Cons.prems by (simp add: setitem_map)
  have "fold (\<lambda>col df. setitem df col (f (getitem df col))) cols ?df'
          = map (\<lambda>(n, c). (n, if n \<in> set cols then f c else c)) ?df'"
    using Cons.prems by (intro Cons.IH) simp_all
  moreover have "map (\<lambda>(n, c). (n, if n \<in> set cols then f c else c)) ?df'
          = map (\<lambda>(n, c). (n, if n \<in> set (col # cols) then f c else c)) df"
    unfolding df' using Cons.prems by (auto simp: comp_def)
  ultimately show ?case by simp
qed

lemma object_step_fst:
  "distinct (map fst df) \<Longrightarrow>
     fst (object_step L col (df, pot)) = setitem df col (detect L (getitem df col))"
proof (cases "parse_object_column L (object_values (getitem df col))")
  case None
  assume "distinct (map fst df)"
  then have "setitem df col (getitem df col) = df"
    unfolding setitem_def by (intro map_idI) (auto simp: getitem_eq)
  with None show ?thesis
    by (simp add: object_step_def detect_def)
next
  case (Some p)
  then show ?thesis by (simp add: object_step_def detect_def)
qed

lemma object_step_snd:
  "snd (object_step L col (df, pot)) =
     pot @ (if parse_object_column L (object_values (getitem df col)) = None then [] else [col])"
  by (simp add: object_step_def split: option.splits)

lemma getitem_setitem_other:
  "col' \<noteq> col \<Longrightarrow> getitem (setitem df col v) col' = getitem df col'"
  by (induction df) (auto simp: getitem_def setitem_def)

lemma fold_object_step:
  "distinct (map fst df) \<Longrightarrow> distinct cols \<Longrightarrow>
     fold (object_step L) cols (df, pot) =
       (map (\<lambda>(n, c). (n, if n \<in> set cols then detect L c else c)) df,
        pot @ filter (\<lambda>n. parse_object_column L (object_values (getitem df n)) \<noteq> None) cols)"
proof (induction cols arbitrary: df pot)
  case Nil
  show ?case by simp
next
  case (Cons col cols)
  let ?df' = "setitem df col (detect L (getitem df col))"
  let ?pot' = "pot @ (if parse_object_column L (object_values (getitem df col)) = None
                      then [] else [col])"
  have step: "object_step L col (df, pot) = (?df', ?pot')"
    using Cons.prems object_step_fst [of df L col pot] object_step_snd [of L col df pot]
    by (simp add: prod_eq_iff)
  have df': "?df' = map (\<lambda>(n, c). (n, if n = col then detect L c else c)) df"
    using Cons.prems by (simp add: setitem_map)
  have others: "getitem ?df' n = getitem df n" if "n \<in> set cols" for n
    using that Cons.prems by (intro getitem_setitem_other) auto
  have "fold (object_step L) cols (?df', ?pot') =
       (map (\<lambda>(n, c). (n, if n \<in> set cols then detect L c else c)) ?df',
        ?pot' @ filter (\<lambda>n. parse_object_column L (object_values (getitem ?df' n)) \<noteq> None) cols)"
    using Cons.prems by (intro Cons.IH) simp_all
  moreover have "map (\<lambda>(n, c). (n, if n \<in> set cols then detect L c else c)) ?df'
          = map (\<lambda>(n, c). (n, if n \<in> set (col # cols) then detect L c else c)) df"
    unfolding df' using Cons.prems by (auto simp: comp_def)
  moreover have "filter (\<lambda>n. parse_object_column L (object_values (getitem ?df' n)) \<noteq> None) cols
          = filter (\<lambda>n. parse_object_column L (object_values (getitem df n)) \<noteq> None) cols"
    by (rule filter_cong) (simp_all add: others)
  ultimately show ?case
    by (simp add: step)
qed

lemma dt_strftime_other: "\<not> is_datetime c \<Longrightarrow> dt_strftime fmt c = c"
  by (cases c) simp_all

lemma standardize_datetime_columns_columnwise:
  assumes d: "distinct (map fst df)"
  shows "standardize_datetime_columns L df date_only
           = map (\<lambda>(n, c). (n, standardize_column L date_only c)) df"
proof -
  let ?fmt = "if date_only then ''%Y-%m-%d'' else ''%Y-%m-%d %H:%M:%S''"
  let ?native = "map fst (filter (\<lambda>(n, c). is_datetime c) df)"
  let ?objs = "map fst (filter (\<lambda>(n, c). is_object c) df)"
  let ?df1 = "map (\<lambda>(n, c). (n, if n \<in> set ?objs then detect L c else c)) df"
  let ?pot = "filter (\<lambda>n. parse_object_column L (object_values (getitem df n)) \<noteq> None) ?objs"
  let ?cols = "remdups (?native @ ?pot)"
  have dobjs: "distinct ?objs"
    using d by (simp add: distinct_map_filter)
  have phase1: "fold (object_step L) ?objs (df, []) = (?df1, ?pot)"
    using fold_object_step [OF d dobjs, of L "[]"] by simp
  have d1: "distinct (map fst ?df1)"
    using d by (simp add: comp_def case_prod_unfold)
  have phase2: "fold (\<lambda>col df. setitem df col (dt_strftime ?fmt (getitem df col))) ?cols ?df1
      = map (\<lambda>(n, c). (n, if n \<in> set ?cols then dt_strftime ?fmt c else c)) ?df1"
    using d1 by (intro fold_setitem) simp_all
  have in_objs: "n \<in> set ?objs \<longleftrightarrow> is_object c" if "(n, c) \<in> set df" for n c
    using that d by (force simp: distinct_map inj_on_def)
  have in_native: "n \<in> set ?native \<longleftrightarrow> is_datetime c" if "(n, c) \<in> set df" for n c
    using that d by (force simp: distinct_map inj_on_def)
  have final: "(if n \<in> set ?cols
                then dt_strftime ?fmt (if n \<in> set ?objs then detect L c else c)
                else (if n \<in> set ?objs then detect L c else c))
             = standardize_column L date_only c" if nc: "(n, c) \<in> set df" for n c
  proof (cases c)
    case (ObjectCol xs)
    then have o: "n \<in> set ?objs" and nn: "n \<notin> set ?native"
      using in_objs [OF nc] in_native [OF nc] by simp_all
    have g: "getitem df n = c"
      using d nc by (rule getitem_eq)
    show ?thesis
    proof (cases "parse_object_column L xs")
      case None
      then have "n \<notin> set ?pot" using g ObjectCol by simp
      with None o nn ObjectCol show ?thesis
        by (simp add: detect_def standardize_column_def)
    next
      case (Some p)
      then have "n \<in> set ?pot" using g ObjectCol o by simp
      with Some o ObjectCol show ?thesis
        by (simp add: detect_def standardize_column_def)
    qed
  next
    case (Int64Col xs)
    then have "n \<notin> set ?objs"
      using in_objs [OF nc] by simp
    with Int64Col show ?thesis
      by (simp add: standardize_column_def)
  next
    case (Float64Col xs)
    then have "n \<notin> set ?objs"
      using in_objs [OF nc] by simp
    with Float64Col show ?thesis
      by (simp add: standardize_column_def)
  next
    case (DatetimeCol xs)
    then have "n \<notin> set ?objs" "n \<in> set ?native"
      using in_objs [OF nc] in_native [OF nc] by simp_all
    with DatetimeCol show ?thesis
      by (simp add: standardize_column_def)
  qed
  have "standardize_datetime_columns L df date_only
      = map (\<lambda>(n, c). (n, if n \<in> set ?cols then dt_strftime ?fmt c else c)) ?df1"
    unfolding standardize_datetime_columns_def Let_def phase1 using phase2 by simp
  also have "\<dots> = map (\<lambda>(n, c). (n, standardize_column L date_only c)) df"
    unfolding map_map
  proof (rule map_cong [OF refl])
    fix x assume x: "x \<in> set df"
    obtain n c where nc: "x = (n, c)" by (cases x)
    from final [of n c] x nc
    show "((\<lambda>(n, c). (n, if n \<in> set ?cols then dt_strftime ?fmt c else c)) \<circ>
            (\<lambda>(n, c). (n, if n \<in> set ?objs then detect L c else c))) x
          = (case x of (n, c) \<Rightarrow> (n, standardize_column L date_only c))"
      by (simp only: nc comp_def prod.case)
  qed
  finally show ?thesis .
qed

section \<open>The two functions and the canonical table\<close>

lemma generate_order_dependent_fingerprint_fst:
  "fst (generate_order_dependent_fingerprint L df)
     = sha256_hexdigest (to_csv (map snd (canonical_frame L df)))"
  by (simp add: generate_order_dependent_fingerprint_def canonical_frame_def Let_def
      comp_def case_prod_unfold)

lemma generate_order_independent_fingerprint_fst:
  "fst (generate_order_independent_fingerprint L df)
     = sha256_hexdigest (concat (sort (map (\<lambda>row. sha256_hexdigest (join '','' row))
         (rows_of (map snd (canonical_frame L df))))))"
  by (simp add: generate_order_independent_fingerprint_def canonical_frame_def Let_def
      comp_def case_prod_unfold)

lemma generate_order_dependent_fingerprint_snd:
  "snd (generate_order_dependent_fingerprint L df) = standardize_datetime_columns L df False"
  by (simp add: generate_order_dependent_fingerprint_def Let_def)

lemma generate_order_independent_fingerprint_snd:
  "snd (generate_order_independent_fingerprint L df) = standardize_datetime_columns L df False"
  by (simp add: generate_order_independent_fingerprint_def Let_def)


section \<open>The caller's table\<close>

lemma standardize_column_untaken:
  "\<not> taken_for_datetime L c \<Longrightarrow> standardize_column L date_only c = c"
  by (cases c) (auto simp: standardize_column_def)

lemma standardize_untaken:
  assumes "distinct (map fst df)" "list_all (\<lambda>c. \<not> taken_for_datetime L c) (map snd df)"
  shows "standardize_datetime_columns L df date_only = df"
proof -
  have "map (\<lambda>(n, c). (n, standardize_column L date_only c)) df = df"
    using assms(2) by (intro map_idI) (auto simp: list_all_iff standardize_column_untaken)
  with assms(1) show ?thesis
    by (simp add: standardize_datetime_columns_columnwise)
qed

text \<open>
  C9, as amended. Computing either fingerprint leaves the caller's table with the same
  labels in the same order and with every column that is not taken for a datetime column
  as it was; a column that is taken for one (a datetime column, or a text column that
  parses as datetimes) is left as text in the format \<^verbatim>\<open>%Y-%m-%d %H:%M:%S\<close>. A table
  none of whose columns is taken for a datetime column is left unchanged.
\<close>

theorem fingerprints_leave_standardized_table:
  assumes "distinct (map fst df)"
  shows "snd (generate_order_dependent_fingerprint L df)
           = map (\<lambda>(n, c). (n, standardize_column L False c)) df
       \<and> snd (generate_order_independent_fingerprint L df)
           = map (\<lambda>(n, c). (n, standardize_column L False c)) df
       \<and> (list_all (\<lambda>c. \<not> taken_for_datetime L c) (map snd df) \<longrightarrow>
            snd (generate_order_dependent_fingerprint L df) = df
          \<and> snd (generate_order_independent_fingerprint L df) = df)"
proof -
  have "standardize_datetime_columns L df False
          = map (\<lambda>(n, c). (n, standardize_column L False c)) df"
    using assms by (rule standardize_datetime_columns_columnwise)
  moreover have "standardize_datetime_columns L df False = df"
    if "list_all (\<lambda>c. \<not> taken_for_datetime L c) (map snd df)"
    using assms that by (rule standardize_untaken)
  ultimately show ?thesis
    by (simp add: generate_order_dependent_fingerprint_snd
        generate_order_independent_fingerprint_snd)
qed

lemma standardize_date_column:
  "map (\<lambda>(n, c). (n, standardize_column pandas_ref False c))
     [(''d'', ObjectCol [Some ''2023-01-05'']), (''n'', Int64Col [1])]
   = [(''d'', ObjectCol [Some ''2023-01-05 00:00:00'']), (''n'', Int64Col [1])]"
  by code_simp

lemma scenario_A_untaken:
  "list_all (\<lambda>c. \<not> taken_for_datetime pandas_ref c) (map snd scenario_A)"
  by code_simp

theorem fingerprints_leave_standardized_table_witness:
  "distinct (map fst [(''d'', ObjectCol [Some ''2023-01-05'']), (''n'', Int64Col [1])])
   \<and> snd (generate_order_dependent_fingerprint pandas_ref
            [(''d'', ObjectCol [Some ''2023-01-05'']), (''n'', Int64Col [1])])
       = [(''d'', ObjectCol [Some ''2023-01-05 00:00:00'']), (''n'', Int64Col [1])]
   \<and> snd (generate_order_independent_fingerprint pandas_ref
            [(''d'', ObjectCol [Some ''2023-01-05'']), (''n'', Int64Col [1])])
       = [(''d'', ObjectCol [Some ''2023-01-05 00:00:00'']), (''n'', Int64Col [1])]
   \<and> distinct (map fst scenario_A)
   \<and> list_all (\<lambda>c. \<not> taken_for_datetime pandas_ref c) (map snd scenario_A)
   \<and> snd (generate_order_dependent_fingerprint pandas_ref scenario_A) = scenario_A
   \<and> snd (generate_order_independent_fingerprint pandas_ref scenario_A) = scenario_A"
proof -
  let ?T = "[(''d'', ObjectCol [Some ''2023-01-05'']), (''n'', Int64Col [1])]"
  have d1: "distinct (map fst ?T)"
    by simp
  have d2: "distinct (map fst scenario_A)"
    by (simp add: scenario_A_def)
  note t1 = fingerprints_leave_standardized_table [OF d1, of pandas_ref]
  note t2 = fingerprints_leave_standardized_table [OF d2, of pandas_ref]
  from t1 have a: "snd (generate_order_dependent_fingerprint pandas_ref ?T)
      = [(''d'', ObjectCol [Some ''2023-01-05 00:00:00'']), (''n'', Int64Col [1])]"
    and b: "snd (generate_order_independent_fingerprint pandas_ref ?T)
      = [(''d'', ObjectCol [Some ''2023-01-05 00:00:00'']), (''n'', Int64Col [1])]"
    by (simp_all only: standardize_date_column)
  from t2 scenario_A_untaken
  have c: "snd (generate_order_dependent_fingerprint pandas_ref scenario_A) = scenario_A
         \<and> snd (generate_order_independent_fingerprint pandas_ref scenario_A) = scenario_A"
    by blast
  from a b c d1 d2 scenario_A_untaken show ?thesis
    by blast
qed

theorem fingerprint_changes_caller_table:
  "snd (generate_order_dependent_fingerprint pandas_ref [(''d'', ObjectCol [Some ''2023-01-05''])])
     \<noteq> [(''d'', ObjectCol [Some ''2023-01-05''])]"
proof -
  have "standardize_datetime_columns pandas_ref [(''d'', ObjectCol [Some ''2023-01-05''])] False
          = [(''d'', ObjectCol [Some ''2023-01-05 00:00:00''])]"
    by code_simp
  then show ?thesis
    by (simp add: generate_order_dependent_fingerprint_snd)
qed

section \<open>Rows in another order\<close>


lemma map_nth_map: "\<forall>i\<in>set idx. i < length xs \<Longrightarrow> map ((!) (map f xs)) idx = map f (map ((!) xs) idx)"
  by (simp add: comp_def)










lemma map_fst_iloc [simp]: "map fst (iloc idx df) = map fst df"
  by (simp add: iloc_def comp_def case_prod_unfold)

lemma getitem_map:
  "n \<in> fst ` set df \<Longrightarrow> getitem (map (\<lambda>(n, c). (n, f c)) df) n = f (getitem df n)"
  by (induction df) (auto simp: getitem_def)

lemma reindex_sorted_map:
  "reindex_sorted (map (\<lambda>(n, c). (n, f c)) df) = map (\<lambda>(n, c). (n, f c)) (reindex_sorted df)"
proof -
  have names: "map fst (map (\<lambda>(n, c). (n, f c)) df) = map fst df"
    by (simp add: comp_def case_prod_unfold)
  have "reindex_sorted (map (\<lambda>(n, c). (n, f c)) df)
      = map (\<lambda>n. (n, getitem (map (\<lambda>(n, c). (n, f c)) df) n)) (sort (map fst df))"
    by (simp only: reindex_sorted_def names)
  also have "\<dots> = map (\<lambda>n. (n, f (getitem df n))) (sort (map fst df))"
    by (rule map_cong) (simp_all add: getitem_map)
  also have "\<dots> = map (\<lambda>(n, c). (n, f c)) (reindex_sorted df)"
    by (simp add: reindex_sorted_def comp_def)
  finally show ?thesis .
qed

lemma canonical_frame_columnwise:
  assumes "distinct (map fst df)"
  shows "canonical_frame L df = map (\<lambda>(n, c). (n, canonical_column L c)) (reindex_sorted df)"
  unfolding canonical_frame_def standardize_datetime_columns_columnwise [OF assms]
    reindex_sorted_map
  by (simp add: canonical_column_def comp_def case_prod_unfold)



lemma col_length_str_strip [simp]: "col_length (str_strip c) = col_length c"
  by (cases c) simp_all

lemma col_length_round_col [simp]: "col_length (round_col k c) = col_length c"
  by (cases c) simp_all

lemma length_fillna_astype_str [simp]: "length (fillna_astype_str c) = col_length c"
  by (cases c) simp_all











lemma length_reindex_sorted [simp]: "length (reindex_sorted df) = length df"
  by (simp add: reindex_sorted_def)






section \<open>Scenario A\<close>

lemma canonical_column_Int64Col [simp]: "canonical_column L (Int64Col xs) = map str_int xs"
  by (simp add: canonical_column_def standardize_column_def)

lemma canonical_column_Float64Col [simp]:
  "canonical_column L (Float64Col xs)
     = map (\<lambda>x. if np_round 6 x = NaN then [] else str_float (np_round 6 x)) xs"
  by (simp add: canonical_column_def standardize_column_def comp_def)

lemma canonical_column_text:
  "parse_object_column L xs = None \<Longrightarrow>
     canonical_column L (ObjectCol xs) = map (\<lambda>x. case x of None \<Rightarrow> [] | Some s \<Rightarrow> strip s) xs"
  by (simp add: canonical_column_def standardize_column_def comp_def split: option.splits)

lemma dec_digit: "0 \<le> n \<Longrightarrow> n < 10 \<Longrightarrow> dec n = [''0123456789'' ! nat n]"
  by (simp add: dec.simps)

lemma scenario_A_canonical:
  assumes "parse_object_column L [Some ''x'', Some ''y''] = None"
  shows "canonical_frame L scenario_A = [(''a'', [''x'', ''y'']), (''b'', [''1'', ''2''])]"
proof -
  have d: "distinct (map fst scenario_A)"
    by (simp add: scenario_A_def)
  have r: "reindex_sorted scenario_A
             = [(''a'', ObjectCol [Some ''x'', Some ''y'']), (''b'', Int64Col [1, 2])]"
    by (simp add: reindex_sorted_def scenario_A_def getitem_def)
  show ?thesis
    unfolding canonical_frame_columnwise [OF d] r
    using assms
    by (simp add: canonical_column_text strip_def isspace_def str_int_def dec_digit)
qed

lemma scenario_A_digest:
  "sha256_hexdigest ''x,1\<newline>y,2\<newline>''
     = ''34d8d1f3f0ac10b451df684b5989b0ba3c56c815fccf1343d605ec2598baf57a''"
  by code_simp

lemma scenario_A_spec_digest:
  "sha256_hexdigest ''1,x\<newline>2,y\<newline>''
     = ''ddaab98e9f07945228d3126a825b824d403b14ae4af52f3bb731a5c680923a6b''"
  by code_simp

lemma pandas_ref_x_y: "parse_object_column pandas_ref [Some ''x'', Some ''y''] = None"
  by code_simp

text \<open>
  C1, as amended. For the table with the columns \<open>b\<close>, \<open>a\<close> in this order and the rows
  \<open>(b = 1, a = x)\<close>, \<open>(b = 2, a = y)\<close>, the canonical table has the columns \<open>a\<close>, \<open>b\<close>,
  and the order-dependent fingerprint is the SHA-256 hex digest of the bytes
  \<^verbatim>\<open>x,1\ny,2\n\<close>: the rows of the canonical table, fields joined by commas, each row
  ended by a line feed, no header and no index. The texts \<open>x\<close> and \<open>y\<close> are not dates
  to the library.
\<close>

theorem scenario_A_fingerprint:
  assumes "parse_object_column L [Some ''x'', Some ''y''] = None"
  shows "canonical_frame L scenario_A = [(''a'', [''x'', ''y'']), (''b'', [''1'', ''2''])]
       \<and> to_csv (map snd (canonical_frame L scenario_A)) = ''x,1\<newline>y,2\<newline>''
       \<and> fst (generate_order_dependent_fingerprint L scenario_A)
           = sha256_hexdigest ''x,1\<newline>y,2\<newline>''"
proof -
  have c: "canonical_frame L scenario_A = [(''a'', [''x'', ''y'']), (''b'', [''1'', ''2''])]"
    using assms by (rule scenario_A_canonical)
  have "to_csv [[''x'', ''y''], [''1'', ''2'']] = ''x,1\<newline>y,2\<newline>''"
    by (simp add: to_csv_def csv_row_def csv_field_def)
  with c show ?thesis
    by (simp add: generate_order_dependent_fingerprint_fst)
qed

theorem scenario_A_fingerprint_witness:
  "parse_object_column pandas_ref [Some ''x'', Some ''y''] = None
   \<and> fst (generate_order_dependent_fingerprint pandas_ref scenario_A)
       = ''34d8d1f3f0ac10b451df684b5989b0ba3c56c815fccf1343d605ec2598baf57a''"
  using scenario_A_fingerprint [OF pandas_ref_x_y] pandas_ref_x_y scenario_A_digest
  by simp

theorem scenario_A_not_spec_bytes:
  "fst (generate_order_dependent_fingerprint pandas_ref scenario_A)
     \<noteq> sha256_hexdigest ''1,x\<newline>2,y\<newline>''"
proof -
  have "fst (generate_order_dependent_fingerprint pandas_ref scenario_A)
          = sha256_hexdigest ''x,1\<newline>y,2\<newline>''"
    using pandas_ref_x_y scenario_A_canonical [of pandas_ref]
    by (simp add: generate_order_dependent_fingerprint_fst to_csv_def csv_row_def csv_field_def)
  then show ?thesis
    by (simp add: scenario_A_digest scenario_A_spec_digest)
qed

section \<open>Commas inside fields\<close>

text \<open>
  C10. The order-independent mode joins the fields of a row with commas and quotes
  nothing: the one-row tables with the cells \<open>(a,b | c)\<close> and \<open>(a | b,c)\<close> under the
  same labels have different canonical tables and the same order-independent
  fingerprint. None of the four texts is a date to the library.
\<close>

theorem comma_fields_collide:
  assumes "list_all (\<lambda>s. parse_object_column L [Some s] = None) [''a,b'', ''c'', ''a'', ''b,c'']"
  shows "canonical_frame L comma_left = [(''p'', [''a,b'']), (''q'', [''c''])]
       \<and> canonical_frame L comma_right = [(''p'', [''a'']), (''q'', [''b,c''])]
       \<and> canonical_frame L comma_left \<noteq> canonical_frame L comma_right
       \<and> fst (generate_order_independent_fingerprint L comma_left)
           = fst (generate_order_independent_fingerprint L comma_right)"
proof -
  have d: "distinct (map fst comma_left)" "distinct (map fst comma_right)"
    by (simp_all add: comma_left_def comma_right_def)
  have r: "reindex_sorted comma_left = comma_left" "reindex_sorted comma_right = comma_right"
    by (simp_all add: reindex_sorted_def comma_left_def comma_right_def getitem_def)
  have l: "canonical_frame L comma_left = [(''p'', [''a,b'']), (''q'', [''c''])]"
    unfolding canonical_frame_columnwise [OF d(1)] r using assms
    by (simp add: comma_left_def canonical_column_text strip_def isspace_def)
  have rr: "canonical_frame L comma_right = [(''p'', [''a'']), (''q'', [''b,c''])]"
    unfolding canonical_frame_columnwise [OF d(2)] r using assms
    by (simp add: comma_right_def canonical_column_text strip_def isspace_def)
  show ?thesis
    by (simp add: l rr generate_order_independent_fingerprint_fst)
qed

lemma pandas_ref_comma_texts:
  "list_all (\<lambda>s. parse_object_column pandas_ref [Some s] = None) [''a,b'', ''c'', ''a'', ''b,c'']"
  by code_simp

theorem comma_fields_collide_witness:
  "list_all (\<lambda>s. parse_object_column pandas_ref [Some s] = None) [''a,b'', ''c'', ''a'', ''b,c'']
   \<and> canonical_frame pandas_ref comma_left \<noteq> canonical_frame pandas_ref comma_right
   \<and> fst (generate_order_independent_fingerprint pandas_ref comma_left)
       = fst (generate_order_independent_fingerprint pandas_ref comma_right)"
  using comma_fields_collide [OF pandas_ref_comma_texts] pandas_ref_comma_texts
  by simp

section \<open>Dates as text\<close>

lemma dec_not_Nil: "dec n \<noteq> []"
  by (subst dec.simps) simp

lemma nth_digit: "k < 10 \<Longrightarrow> isdigit (''0123456789'' ! k)"
proof -
  assume "k < 10"
  then have "k \<in> {0, 1, 2, 3, 4, 5, 6, 7, 8, 9}" by auto
  then show ?thesis by (auto simp: isdigit_def)
qed

lemma dec_digits: "list_all isdigit (dec n)"
proof (induction n rule: dec.induct)
  case (1 n)
  show ?case
  proof (cases "n < 10")
    case True
    then have "nat n < 10" by simp
    then have "isdigit (''0123456789'' ! nat n)" by (rule nth_digit)
    with True show ?thesis
      by (subst dec.simps) simp
  next
    case False
    have "nat (n mod 10) < 10" by simp
    then have "isdigit (''0123456789'' ! nat (n mod 10))" by (rule nth_digit)
    moreover have "list_all isdigit (dec (n div 10))"
      using False by (rule "1.IH")
    ultimately show ?thesis
      using False by (subst dec.simps) simp
  qed
qed

lemma zero_pad_not_Nil: "zero_pad w n \<noteq> []"
  by (simp add: zero_pad_def dec_not_Nil)

lemma isdigit_zero: "isdigit CHR ''0''"
  by (simp add: isdigit_def)

lemma zero_pad_digits: "list_all isdigit (zero_pad w n)"
  using dec_digits [of n] by (auto simp: zero_pad_def list_all_iff isdigit_zero)

lemma length_zero_pad: "w \<le> length (zero_pad w n)"
  by (simp add: zero_pad_def)

lemma isdigit_not_isspace: "isdigit c \<Longrightarrow> \<not> isspace c"
  by (auto simp: isdigit_def isspace_def)

lemma dropWhile_hd: "xs \<noteq> [] \<Longrightarrow> \<not> P (hd xs) \<Longrightarrow> dropWhile P xs = xs"
  by (cases xs) simp_all

lemma strip_id:
  assumes "s \<noteq> []" "\<not> isspace (hd s)" "\<not> isspace (last s)"
  shows "strip s = s"
proof -
  have "dropWhile isspace s = s"
    using assms(1,2) by (rule dropWhile_hd)
  moreover have "dropWhile isspace (rev s) = rev s"
    using assms(1,3) by (intro dropWhile_hd) (simp_all add: hd_rev)
  ultimately show ?thesis
    by (simp add: strip_def)
qed

lemma strftime_timestamp:
  "strftime ''%Y-%m-%d %H:%M:%S'' t
     = zero_pad 4 (year t) @ ''-'' @ zero_pad 2 (month t) @ ''-'' @ zero_pad 2 (day t) @ '' ''
       @ zero_pad 2 (hour t) @ '':'' @ zero_pad 2 (minute t) @ '':'' @ zero_pad 2 (second t)"
  by (simp add: directive_def)

lemma strip_strftime_timestamp:
  "strip (strftime ''%Y-%m-%d %H:%M:%S'' t) = strftime ''%Y-%m-%d %H:%M:%S'' t"
proof (rule strip_id)
  let ?s = "zero_pad 4 (year t) @ ''-'' @ zero_pad 2 (month t) @ ''-'' @ zero_pad 2 (day t) @ '' ''
       @ zero_pad 2 (hour t) @ '':'' @ zero_pad 2 (minute t) @ '':'' @ zero_pad 2 (second t)"
  have s: "strftime ''%Y-%m-%d %H:%M:%S'' t = ?s"
    by (rule strftime_timestamp)
  show "strftime ''%Y-%m-%d %H:%M:%S'' t \<noteq> []"
    unfolding s by (simp add: zero_pad_not_Nil)
  have "isdigit (hd (zero_pad 4 (year t)))"
    using zero_pad_digits [of 4 "year t"] zero_pad_not_Nil [of 4 "year t"]
    by (cases "zero_pad 4 (year t)") simp_all
  then show "\<not> isspace (hd (strftime ''%Y-%m-%d %H:%M:%S'' t))"
    unfolding s by (simp add: zero_pad_not_Nil isdigit_not_isspace)
  have "isdigit (last (zero_pad 2 (second t)))"
    using zero_pad_digits [of 2 "second t"] zero_pad_not_Nil [of 2 "second t"]
    by (simp add: list_all_iff)
  then show "\<not> isspace (last (strftime ''%Y-%m-%d %H:%M:%S'' t))"
    unfolding s by (simp add: zero_pad_not_Nil isdigit_not_isspace)
qed

lemma length_strftime_timestamp: "19 \<le> length (strftime ''%Y-%m-%d %H:%M:%S'' t)"
  unfolding strftime_timestamp
  using length_zero_pad [of 4 "year t"] length_zero_pad [of 2 "month t"]
    length_zero_pad [of 2 "day t"] length_zero_pad [of 2 "hour t"]
    length_zero_pad [of 2 "minute t"] length_zero_pad [of 2 "second t"]
  by simp

lemma strftime_timestamp_not_date: "strftime ''%Y-%m-%d %H:%M:%S'' t \<noteq> ''2023-01-05''"
proof
  assume "strftime ''%Y-%m-%d %H:%M:%S'' t = ''2023-01-05''"
  then have "length (strftime ''%Y-%m-%d %H:%M:%S'' t) = length ''2023-01-05''"
    by (rule arg_cong)
  with length_strftime_timestamp [of t] show False
    by simp
qed

declare strftime.simps [simp del]

section \<open>A cell with spaces around a date\<close>

lemma map_of_canonical_frame:
  assumes d: "distinct (map fst df)" and c: "(name, c) \<in> set df"
  shows "map_of (canonical_frame L df) name = Some (canonical_column L c)"
proof -
  have "name \<in> set (sort (map fst df))"
    using c by force
  then have "map_of (reindex_sorted df) name = Some (getitem df name)"
    unfolding reindex_sorted_def by (induction "sort (map fst df)") (auto simp: map_of_map_restrict)
  then show ?thesis
    unfolding canonical_frame_columnwise [OF d]
    by (simp add: map_of_map getitem_eq [OF d c])
qed

lemma canonical_column_taken:
  "parse_object_column L xs = Some parsed \<Longrightarrow>
     canonical_column L (ObjectCol xs)
       = map (\<lambda>x. case x of None \<Rightarrow> [] | Some t \<Rightarrow> strftime ''%Y-%m-%d %H:%M:%S'' t) parsed"
  by (simp add: canonical_column_def standardize_column_def comp_def
      strip_strftime_timestamp split: option.splits)

lemma strip_padded_date: "strip ''  2023-01-05  '' = ''2023-01-05''"
  by (simp add: strip_def isspace_def)

text \<open>
  C6, as amended. Take a text cell \<^verbatim>\<open>"  2023-01-05  "\<close> of any column of any table. When
  its column is not taken for a datetime column, the cell is \<^verbatim>\<open>2023-01-05\<close> in the
  canonical table; when the column is taken for one, the cell is the text, in the format
  \<^verbatim>\<open>%Y-%m-%d %H:%M:%S\<close>, of the datetime the library read it as, which is never
  \<^verbatim>\<open>2023-01-05\<close>, or the empty text when the library read no datetime in it. Both
  fingerprints are computed from the canonical table.
\<close>

theorem padded_date_cell:
  assumes "distinct (map fst df)" and "(name, ObjectCol xs) \<in> set df"
    and "i < length xs" and "xs ! i = Some ''  2023-01-05  ''"
    and "length (infer_datetime L xs) = length xs"
  shows "the (map_of (canonical_frame L df) name) ! i =
           (case parse_object_column L xs of
              None \<Rightarrow> ''2023-01-05''
            | Some parsed_col \<Rightarrow>
                (case parsed_col ! i of
                   None \<Rightarrow> []
                 | Some t \<Rightarrow> strftime ''%Y-%m-%d %H:%M:%S'' t))
       \<and> (\<forall>t. strftime ''%Y-%m-%d %H:%M:%S'' t \<noteq> ''2023-01-05'')
       \<and> fst (generate_order_dependent_fingerprint L df)
           = sha256_hexdigest (to_csv (map snd (canonical_frame L df)))
       \<and> fst (generate_order_independent_fingerprint L df)
           = sha256_hexdigest (concat (sort (map (\<lambda>row. sha256_hexdigest (join '','' row))
               (rows_of (map snd (canonical_frame L df))))))"
proof -
  have cell: "the (map_of (canonical_frame L df) name) ! i = canonical_column L (ObjectCol xs) ! i"
    using assms(1,2) by (simp add: map_of_canonical_frame)
  have "canonical_column L (ObjectCol xs) ! i =
           (case parse_object_column L xs of
              None \<Rightarrow> ''2023-01-05''
            | Some parsed_col \<Rightarrow>
                (case parsed_col ! i of
                   None \<Rightarrow> []
                 | Some t \<Rightarrow> strftime ''%Y-%m-%d %H:%M:%S'' t))"
  proof (cases "parse_object_column L xs")
    case None
    with assms(3,4) show ?thesis
      by (simp add: canonical_column_text strip_padded_date)
  next
    case (Some parsed_col)
    have "length parsed_col = length xs"
    proof (cases "snd (try_formats L datetime_formats xs)")
      case None
      with Some assms(5) show ?thesis
        by (auto simp: parse_object_column_def Let_def split: if_splits)
    next
      case (Some q)
      then have "\<exists>fmt. to_datetime_format L fmt xs = Some q"
        by (auto simp: try_formats_find split: option.splits)
      then have "length q = length xs"
        by (auto simp: to_datetime_format_def split: if_splits)
      with Some \<open>parse_object_column L xs = Some parsed_col\<close> show ?thesis
        by (simp add: parse_object_column_def)
    qed
    with Some assms(3) show ?thesis
      by (simp add: canonical_column_taken)
  qed
  with cell show ?thesis
    by (simp add: strftime_timestamp_not_date generate_order_dependent_fingerprint_fst
        generate_order_independent_fingerprint_fst)
qed

lemma padded_dates_parsed:
  "parse_object_column pandas_ref
     [Some ''2023-01-01'', Some ''2023-01-02'', Some ''2023-01-03'',
      Some ''2023-01-04'', Some ''2023-01-06'', Some ''  2023-01-05  '']
   = Some [Some \<lparr>year = 2023, month = 1, day = 1, hour = 0, minute = 0, second = 0\<rparr>,
           Some \<lparr>year = 2023, month = 1, day = 2, hour = 0, minute = 0, second = 0\<rparr>,
           Some \<lparr>year = 2023, month = 1, day = 3, hour = 0, minute = 0, second = 0\<rparr>,
           Some \<lparr>year = 2023, month = 1, day = 4, hour = 0, minute = 0, second = 0\<rparr>,
           Some \<lparr>year = 2023, month = 1, day = 6, hour = 0, minute = 0, second = 0\<rparr>,
           None]"
  by code_simp

theorem padded_date_cell_witness:
  "distinct (map fst padded_dates)
   \<and> the (map_of (canonical_frame pandas_ref padded_dates) ''d'') ! 5 = []"
proof -
  let ?xs = "[Some ''2023-01-01'', Some ''2023-01-02'', Some ''2023-01-03'',
              Some ''2023-01-04'', Some ''2023-01-06'', Some ''  2023-01-05  '']"
  have d: "distinct (map fst padded_dates)"
    by (simp add: padded_dates_def)
  have m: "(''d'', ObjectCol ?xs) \<in> set padded_dates"
    by (simp add: padded_dates_def)
  have i: "5 < length ?xs" "?xs ! 5 = Some ''  2023-01-05  ''"
    by simp_all
  have l: "length (infer_datetime pandas_ref ?xs) = length ?xs"
    by (simp add: pandas_ref_def)
  from padded_date_cell [OF d m i l]
  have "the (map_of (canonical_frame pandas_ref padded_dates) ''d'') ! 5 = []"
    by (simp add: padded_dates_parsed)
  with d show ?thesis by simp
qed

theorem padded_date_cell_emptied:
  "canonical_frame pandas_ref padded_dates
     = [(''d'', [''2023-01-01 00:00:00'', ''2023-01-02 00:00:00'', ''2023-01-03 00:00:00'',
                 ''2023-01-04 00:00:00'', ''2023-01-06 00:00:00'', [] ])]"
  by code_simp

end
